theory Spec2Isabelle
  imports Main
begin

section \<open>Python string operations used by the script\<close>

text \<open>
  \<open>str.startswith\<close> and \<open>str.endswith\<close>.
\<close>

definition startswith :: "string \<Rightarrow> string \<Rightarrow> bool" where
  "startswith s p = (take (length p) s = p)"

definition endswith :: "string \<Rightarrow> string \<Rightarrow> bool" where
  "endswith s p = (length p \<le> length s \<and> drop (length s - length p) s = p)"

text \<open>
  \<open>str.split(sep)\<close> for a non-empty separator: the string is cut at every occurrence of
  \<open>sep\<close>, found from left to right without overlap. The result always has at least
  one element.
\<close>

fun split_sep :: "string \<Rightarrow> string \<Rightarrow> string list" where
  "split_sep sep [] = [[]]"
| "split_sep sep (c # cs) =
     (if sep \<noteq> [] \<and> startswith (c # cs) sep
      then [] # split_sep sep (drop (length sep - 1) cs)
      else (case split_sep sep cs of
              [] \<Rightarrow> [[c]]
            | w # ws \<Rightarrow> (c # w) # ws))"

datatype error =
    ValueError          \<comment> \<open>\<open>str.split\<close> with an empty separator\<close>
  | IndexError          \<comment> \<open>list index out of range\<close>
  | HTTPError string    \<comment> \<open>\<open>raise_for_status\<close> (or the request itself) failed for this URL\<close>
  | S3UploadFailed string  \<comment> \<open>an upload to this key failed\<close>

text \<open>\<open>s.split(sep)\<close>: an empty separator raises \<open>ValueError\<close>.\<close>

definition split_py :: "string \<Rightarrow> string \<Rightarrow> error + string list" where
  "split_py s sep = (if sep = [] then Inl ValueError else Inr (split_sep sep s))"

section \<open>Configuration constants\<close>

definition S3_BUCKET_NAME :: string where
  "S3_BUCKET_NAME = ''rearc-quest-data-bhagath''"

definition AWS_REGION :: string where
  "AWS_REGION = ''ap-south-1''"

definition DATA_DIR :: string where
  "DATA_DIR = ''data''"

definition DATASET2_URL :: string where
  "DATASET2_URL = ''https://honolulu-api.datausa.io/tesseract/data.jsonrecords?cube=acs_yg_total_population_1&drilldowns=Year%2CNation&locale=en&measures=Population''"

definition DATASET2_JSON_FILE :: string where
  "DATASET2_JSON_FILE = ''usa_population.json''"

section \<open>Listing the store: \<open>get_s3_objects\<close>\<close>

text \<open>
  One response of \<open>list_objects_v2\<close>: \<open>None\<close> when the response has no \<open>Contents\<close>
  entry, otherwise the keys of its items in order. A listing is the sequence of
  responses the paginator yields.
\<close>

type_synonym page = "string list option"

text \<open>
  Lines 78-79: a key that starts with the prefix is replaced by element 1 of
  \<open>key.split(s3_prefix)\<close>; any other key is kept as it is.
\<close>

definition object_name :: "string \<Rightarrow> string \<Rightarrow> error + string" where
  "object_name s3_prefix key =
     (if startswith key s3_prefix
      then (case split_py key s3_prefix of
              Inl e \<Rightarrow> Inl e
            | Inr parts \<Rightarrow> (if 1 < length parts then Inr (parts ! 1) else Inl IndexError))
      else Inr key)"

text \<open>The inner loop over the items of one page; \<open>objects\<close> is the list built so far.\<close>

fun page_loop :: "string \<Rightarrow> string list \<Rightarrow> string list \<Rightarrow> error + string list" where
  "page_loop s3_prefix [] objects = Inr objects"
| "page_loop s3_prefix (key # items) objects =
     (if \<not> endswith key ''/''
      then (case object_name s3_prefix key of
              Inl e \<Rightarrow> Inl e
            | Inr name \<Rightarrow> page_loop s3_prefix items (objects @ [name]))
      else page_loop s3_prefix items objects)"

text \<open>The outer loop over the pages of the paginator.\<close>

fun pages_loop :: "string \<Rightarrow> page list \<Rightarrow> string list \<Rightarrow> error + string list" where
  "pages_loop s3_prefix [] objects = Inr objects"
| "pages_loop s3_prefix (None # pages) objects = pages_loop s3_prefix pages objects"
| "pages_loop s3_prefix (Some contents # pages) objects =
     (case page_loop s3_prefix contents objects of
        Inl e \<Rightarrow> Inl e
      | Inr objects' \<Rightarrow> pages_loop s3_prefix pages objects')"

definition get_s3_objects :: "page list \<Rightarrow> string \<Rightarrow> error + string list" where
  "get_s3_objects pages s3_prefix = pages_loop s3_prefix pages []"

section \<open>Effects\<close>

text \<open>
  The script talks to three outside parties: the remote file server (\<open>requests.get\<close>),
  the object store (the S3 client) and the local file system. A call of a function of the
  script is modelled by its outcome: the calls it made and the lines it printed, in
  order; the local files present afterwards; and the exception that ended it, if any.
  Nothing in the script catches an exception, so a raised exception ends every
  enclosing call.
\<close>

datatype fetch_site =
    For_upload     \<comment> \<open>the \<open>requests.get\<close> of line 99\<close>
  | For_cache      \<comment> \<open>the \<open>requests.get\<close> of line 110\<close>
  | For_dataset2   \<comment> \<open>the \<open>requests.get\<close> of line 56\<close>

datatype message =
    Uploading string          \<comment> \<open>\<open>Uploading {filename} to S3...\<close>\<close>
  | Skipping string           \<comment> \<open>\<open>Skipping {filename}, already in S3.\<close>\<close>
  | Downloading string        \<comment> \<open>\<open>Downloading {filename} to local directory...\<close>\<close>
  | Deleting_obsolete         \<comment> \<open>\<open>Deleting obsolete files from S3...\<close>\<close>
  | Deleted nat               \<comment> \<open>\<open>Deleted {len(delete_objects)} files.\<close>\<close>
  | No_files_to_delete        \<comment> \<open>\<open>No files to delete.\<close>\<close>
  | No_files_found            \<comment> \<open>\<open>No files found in S3 folder.\<close>\<close>
  | Index_uploaded string     \<comment> \<open>\<open>index.html uploaded to s3://{bucket}/{index_key}\<close>\<close>
  | Access_via string         \<comment> \<open>\<open>Access it via: https://.../{index_key}\<close>\<close>
  | Uploading_dataset2        \<comment> \<open>\<open>Uploading Dataset 2 JSON to S3...\<close>\<close>
  | Dataset2_saved            \<comment> \<open>\<open>Dataset 2 JSON saved to {DATASET2_JSON_FILE}\<close>\<close>
  | Dataset2_uploaded         \<comment> \<open>\<open>Uploaded {DATASET2_JSON_FILE} to S3 bucket {bucket}\<close>\<close>
  | Sync_complete             \<comment> \<open>\<open>S3 Sync complete.\<close>\<close>

datatype event =
    Print message
  | Makedirs string
      \<comment> \<open>\<open>os.makedirs(path, exist_ok=True)\<close>\<close>
  | Get fetch_site string string
      \<comment> \<open>a \<open>requests.get\<close> sent for this file name to this URL, whatever its status\<close>
  | Upload_fileobj string string
      \<comment> \<open>these bytes, read from a response stream, were stored under this key\<close>
  | Write_file string string
      \<comment> \<open>the local file at this path was written with these bytes\<close>
  | Dump_json string string
      \<comment> \<open>the local file at this path was written with \<open>json.dump\<close> of the document
          parsed from these bytes\<close>
  | Delete_objects "string list" "string list"
      \<comment> \<open>one batch delete: the keys requested, and the keys the store reports as deleted\<close>
  | Put_object string string
      \<comment> \<open>this body was stored under this key\<close>
  | Upload_file string string
      \<comment> \<open>the local file at this path was stored under this key\<close>

text \<open>
  What the outside parties answer: whether a GET of a URL succeeds (\<open>raise_for_status\<close>
  passes), whether storing an object under a key succeeds, whether the store fails to
  delete a key of a batch (reported in the response, not raised), and the bytes of the
  body that a successful GET of a URL returns.
\<close>

record env =
  fetch_ok :: "string \<Rightarrow> bool"
  upload_ok :: "string \<Rightarrow> bool"
  delete_fails :: "string \<Rightarrow> bool"
  body_of :: "string \<Rightarrow> string"

record outcome =
  events :: "event list"
  files :: "string set"
  raised :: "error option"

definition finish :: "string set \<Rightarrow> outcome" where
  "finish fs = \<lparr>events = [], files = fs, raised = None\<rparr>"

definition raise :: "error \<Rightarrow> string set \<Rightarrow> outcome" where
  "raise e fs = \<lparr>events = [], files = fs, raised = Some e\<rparr>"

definition emit :: "event list \<Rightarrow> string set \<Rightarrow> outcome" where
  "emit evs fs = \<lparr>events = evs, files = fs, raised = None\<rparr>"

text \<open>Sequencing: the second step runs only when the first raised nothing.\<close>

definition and_then :: "outcome \<Rightarrow> (string set \<Rightarrow> outcome) \<Rightarrow> outcome" where
  "and_then o1 f =
     (case raised o1 of
        Some e \<Rightarrow> o1
      | None \<Rightarrow> (let o2 = f (files o1) in o2\<lparr>events := events o1 @ events o2\<rparr>))"

text \<open>\<open>requests.get(url, ...)\<close> followed by \<open>raise_for_status()\<close>.\<close>

definition requests_get :: "env \<Rightarrow> fetch_site \<Rightarrow> string \<Rightarrow> string \<Rightarrow> string set \<Rightarrow> outcome" where
  "requests_get env site filename url fs =
     \<lparr>events = [Get site filename url], files = fs,
      raised = (if fetch_ok env url then None else Some (HTTPError url))\<rparr>"

text \<open>
  The requests are made with \<open>stream=True\<close>: the body of a response is a stream that
  is read once. A stream is modelled by the bytes not yet read from it. Reading a stream
  to its end gives those bytes and leaves a stream with nothing to read.
\<close>

definition read_all :: "string \<Rightarrow> string \<times> string" where
  "read_all stream = (stream, [])"

text \<open>
  \<open>s3.upload_fileobj(fileobj, bucket, key)\<close> stores under the key the bytes it has read
  from \<open>fileobj\<close>, which it reads to its end.
\<close>

definition s3_upload_fileobj :: "env \<Rightarrow> string \<Rightarrow> string \<Rightarrow> string set \<Rightarrow> outcome" where
  "s3_upload_fileobj env bytes key fs =
     (if upload_ok env key then emit [Upload_fileobj bytes key] fs else raise (S3UploadFailed key) fs)"

definition s3_put_object :: "env \<Rightarrow> string \<Rightarrow> string \<Rightarrow> string set \<Rightarrow> outcome" where
  "s3_put_object env key body fs =
     (if upload_ok env key then emit [Put_object key body] fs else raise (S3UploadFailed key) fs)"

definition s3_upload_file :: "env \<Rightarrow> string \<Rightarrow> string \<Rightarrow> string set \<Rightarrow> outcome" where
  "s3_upload_file env path key fs =
     (if upload_ok env key then emit [Upload_file path key] fs else raise (S3UploadFailed key) fs)"

text \<open>
  \<open>open(path, "wb")\<close> and the writes of lines 113-114: the file is created and holds
  the bytes that \<open>iter_content\<close> still finds in the stream of the response.
\<close>

definition write_file :: "string \<Rightarrow> string \<Rightarrow> string set \<Rightarrow> outcome" where
  "write_file path bytes fs =
     \<lparr>events = [Write_file path bytes], files = insert path fs, raised = None\<rparr>"

text \<open>\<open>open(path, 'w')\<close> and \<open>json.dump(data, f, indent=4)\<close> of lines 61-62.\<close>

definition dump_json :: "string \<Rightarrow> string \<Rightarrow> string set \<Rightarrow> outcome" where
  "dump_json path bytes fs =
     \<lparr>events = [Dump_json path bytes], files = insert path fs, raised = None\<rparr>"

text \<open>\<open>os.path.join\<close> of two components (POSIX).\<close>

definition os_path_join :: "string \<Rightarrow> string \<Rightarrow> string" where
  "os_path_join a b =
     (if startswith b ''/'' then b
      else if a = [] \<or> endswith a ''/'' then a @ b
      else a @ ''/'' @ b)"

section \<open>The upload path: \<open>upload_files_to_s3\<close>\<close>

text \<open>
  \<open>files_info\<close> is a Python dict from file name to URL or \<open>None\<close>; it is iterated in
  insertion order, so it is an association list (with distinct keys).
\<close>

type_synonym files_info = "(string \<times> string option) list"

definition files_to_download :: "string list" where
  "files_to_download = [''pr.data.0.Current'']"

definition download_dir :: string where
  "download_dir = os_path_join DATA_DIR ''dataset1''"

text \<open>
  One iteration of the loop of lines 94-114. \<open>fetched\<close> says that \<open>file_resp\<close> was
  assigned at line 99, so that \<open>file_resp is None\<close> at line 109 is \<open>\<not> fetched\<close>.
  The response of line 99 starts with its whole body unread; \<open>upload_fileobj\<close> at line
  102 reads \<open>file_resp.raw\<close> to its end and stores \<open>uploaded\<close>, and \<open>unread\<close> is what
  the stream of that same response still holds when lines 112-114 copy it to the local
  file. The response of line 110 is a new one, with its whole body unread. Either way
  \<open>iter_content\<close> reads the stream it is given to its end.
\<close>

definition upload_item ::
  "env \<Rightarrow> string list \<Rightarrow> string \<Rightarrow> string set \<Rightarrow> string \<times> string option \<Rightarrow> outcome" where
  "upload_item env existing_s3_files s3_prefix fs item =
     (case item of
        (filename, None) \<Rightarrow> finish fs
      | (filename, Some file_url) \<Rightarrow>
          (let fetched = (filename \<notin> set existing_s3_files);
               filepath = os_path_join download_dir filename;
               (uploaded, unread) = read_all (body_of env file_url)
           in and_then
                (if fetched
                 then and_then (requests_get env For_upload filename file_url fs)
                        (\<lambda>fs. and_then (emit [Print (Uploading filename)] fs)
                           (s3_upload_fileobj env uploaded (s3_prefix @ filename)))
                 else emit [Print (Skipping filename)] fs)
                (\<lambda>fs. if filename \<in> set files_to_download \<and> filepath \<notin> fs
                      then and_then (emit [Print (Downloading filename)] fs)
                             (\<lambda>fs. if \<not> fetched
                                   then and_then (requests_get env For_cache filename file_url fs)
                                          (write_file filepath
                                             (fst (read_all (body_of env file_url))))
                                   else write_file filepath (fst (read_all unread)) fs)
                      else finish fs)))"

fun upload_loop ::
  "env \<Rightarrow> string list \<Rightarrow> string \<Rightarrow> files_info \<Rightarrow> string set \<Rightarrow> outcome" where
  "upload_loop env existing_s3_files s3_prefix [] fs = finish fs"
| "upload_loop env existing_s3_files s3_prefix (item # rest) fs =
     and_then (upload_item env existing_s3_files s3_prefix fs item)
       (upload_loop env existing_s3_files s3_prefix rest)"

definition upload_files_to_s3 ::
  "env \<Rightarrow> files_info \<Rightarrow> string list \<Rightarrow> string \<Rightarrow> string set \<Rightarrow> outcome" where
  "upload_files_to_s3 env files_info existing_s3_files s3_prefix fs =
     and_then (emit [Makedirs download_dir] fs)
       (upload_loop env existing_s3_files s3_prefix files_info)"

section \<open>The delete path: \<open>remove_files_from_s3\<close>\<close>

text \<open>
  \<open>set(existing_s3_files) - set(files_info.keys())\<close>. A Python set has no duplicates and
  no specified order; the list below fixes one order, and nothing proved here depends
  on it.
\<close>

definition files_to_delete :: "files_info \<Rightarrow> string list \<Rightarrow> string list" where
  "files_to_delete files_info existing_s3_files =
     remdups (filter (\<lambda>f. f \<notin> set (map fst files_info)) existing_s3_files)"

text \<open>
  The store's answer to a batch delete: the keys it deleted. The call does not raise
  for a key it could not delete.
\<close>

definition s3_delete_objects :: "env \<Rightarrow> string list \<Rightarrow> string set \<Rightarrow> outcome" where
  "s3_delete_objects env keys fs =
     emit [Delete_objects keys (filter (\<lambda>k. \<not> delete_fails env k) keys)] fs"

definition remove_files_from_s3 ::
  "env \<Rightarrow> files_info \<Rightarrow> string list \<Rightarrow> string \<Rightarrow> string set \<Rightarrow> outcome" where
  "remove_files_from_s3 env files_info existing_s3_files s3_prefix fs =
     (let to_delete = files_to_delete files_info existing_s3_files
      in if to_delete \<noteq> []
         then (let delete_objects = map (\<lambda>f. s3_prefix @ f) to_delete
               in and_then (emit [Print Deleting_obsolete] fs)
                    (\<lambda>fs. and_then (s3_delete_objects env delete_objects fs)
                       (emit [Print (Deleted (length delete_objects))])))
         else emit [Print No_files_to_delete] fs)"

section \<open>Publishing the index: \<open>generate_index_html\<close>\<close>

text \<open>
  A single \<open>list_objects_v2\<close> call returns the first response of the listing only. The
  store always answers with one response at least; an empty listing is read as a
  response without \<open>Contents\<close>.
\<close>

fun list_objects_v2 :: "page list \<Rightarrow> page" where
  "list_objects_v2 [] = None"
| "list_objects_v2 (response # further) = response"

text \<open>\<open>sep.join(lines)\<close>.\<close>

fun join :: "string \<Rightarrow> string list \<Rightarrow> string" where
  "join sep [] = []"
| "join sep [x] = x"
| "join sep (x # y # zs) = x @ sep @ join sep (y # zs)"

text \<open>\<open>https://{S3_BUCKET_NAME}.s3.{AWS_REGION}.amazonaws.com/{key}\<close>\<close>

definition public_url :: "string \<Rightarrow> string" where
  "public_url key = ''https://'' @ S3_BUCKET_NAME @ ''.s3.'' @ AWS_REGION @ ''.amazonaws.com/'' @ key"

text \<open>\<open>key.split("/")[-1]\<close>; the split of a string is never empty.\<close>

definition basename :: "string \<Rightarrow> string" where
  "basename key = last (split_sep ''/'' key)"

text \<open>The line \<open><li><a href="{file_url}">{filename}</a></li>\<close> of one object.\<close>

definition index_entry :: "string \<Rightarrow> string" where
  "index_entry key =
     ''<li><a href='' @ [CHR 0x22] @ public_url key @ [CHR 0x22] @ ''>'' @ basename key @ ''</a></li>''"

text \<open>The loop of lines 148-154 over \<open>response["Contents"]\<close>.\<close>

fun index_loop :: "string list \<Rightarrow> string list \<Rightarrow> string list" where
  "index_loop [] html_lines = html_lines"
| "index_loop (key # objs) html_lines =
     (if endswith key ''/'' then index_loop objs html_lines
      else index_loop objs (html_lines @ [index_entry key]))"

definition index_header :: "string \<Rightarrow> string list" where
  "index_header prefix =
     [''<!DOCTYPE html>'',
      ''<html><head><title>Dataset Files</title></head><body>'',
      ''<h2>Files in '' @ prefix @ ''</h2>'',
      ''<ul>'']"

definition generate_index_html :: "env \<Rightarrow> page list \<Rightarrow> string \<Rightarrow> string set \<Rightarrow> outcome" where
  "generate_index_html env pages prefix fs =
     (case list_objects_v2 pages of
        None \<Rightarrow> emit [Print No_files_found] fs
      | Some contents \<Rightarrow>
          (let html_lines = index_loop contents (index_header prefix) @ [''</ul></body></html>''];
               html_content = join [CHR 0x0A] html_lines;
               index_key = prefix @ ''index.html''
           in and_then (s3_put_object env index_key html_content fs)
                (emit [Print (Index_uploaded index_key), Print (Access_via index_key)])))"

section \<open>The whole run: \<open>sync_bucket\<close>\<close>

text \<open>\<open>d[k] = v\<close> on a dict: an existing key keeps its place, a new key goes last.\<close>

fun dict_set :: "('k \<times> 'v) list \<Rightarrow> 'k \<Rightarrow> 'v \<Rightarrow> ('k \<times> 'v) list" where
  "dict_set [] k v = [(k, v)]"
| "dict_set ((k', v') # d) k v = (if k' = k then (k, v) # d else (k', v') # dict_set d k v)"

definition get_dataset2_json :: "env \<Rightarrow> string set \<Rightarrow> outcome" where
  "get_dataset2_json env fs =
     (let download_dir = os_path_join DATA_DIR ''dataset2''
      in and_then (requests_get env For_dataset2 DATASET2_JSON_FILE DATASET2_URL fs)
           (\<lambda>fs. and_then (emit [Makedirs download_dir] fs)
              (\<lambda>fs. and_then
                 (dump_json (os_path_join download_dir DATASET2_JSON_FILE)
                    (body_of env DATASET2_URL) fs)
                 (emit [Print Dataset2_saved]))))"

text \<open>
  \<open>get_dataset1_info\<close> scrapes a web page; its result (the mapping, or the exception
  it raised) is a parameter here, as are the listing of the store when the run starts
  and the listing when the index is generated.
\<close>

definition sync_bucket ::
  "env \<Rightarrow> error + files_info \<Rightarrow> page list \<Rightarrow> page list \<Rightarrow> string \<Rightarrow> string set \<Rightarrow> outcome" where
  "sync_bucket env dataset1_info pages_before pages_after s3_prefix fs =
     (case dataset1_info of
        Inl e \<Rightarrow> raise e fs
      | Inr remote_files0 \<Rightarrow>
          (case get_s3_objects pages_before s3_prefix of
             Inl e \<Rightarrow> raise e fs
           | Inr s3_files \<Rightarrow>
               (let remote_files =
                      dict_set (dict_set remote_files0 ''index.html'' None) DATASET2_JSON_FILE None;
                    dataset2_path =
                      os_path_join (os_path_join DATA_DIR ''dataset2'') DATASET2_JSON_FILE
                in and_then (upload_files_to_s3 env remote_files s3_files s3_prefix fs)
                  (\<lambda>fs. and_then (remove_files_from_s3 env remote_files s3_files s3_prefix fs)
                  (\<lambda>fs. and_then (emit [Print Uploading_dataset2] fs)
                  (\<lambda>fs. and_then (get_dataset2_json env fs)
                  (\<lambda>fs. and_then (s3_upload_file env dataset2_path (s3_prefix @ DATASET2_JSON_FILE) fs)
                  (\<lambda>fs. and_then (emit [Print Dataset2_uploaded, Print Sync_complete] fs)
                  (generate_index_html env pages_after s3_prefix)))))))))"

section \<open>What a run did\<close>

text \<open>
  Readings of the events of an outcome: the keys under which the upload path stored
  objects, the keys named in batch deletes, and the requests sent for a file name
  (one entry per request, saying which line sent it).
\<close>

fun uploaded_keys :: "event list \<Rightarrow> string list" where
  "uploaded_keys [] = []"
| "uploaded_keys (Upload_fileobj bytes key # evs) = key # uploaded_keys evs"
| "uploaded_keys (e # evs) = uploaded_keys evs"

fun delete_requested :: "event list \<Rightarrow> string list" where
  "delete_requested [] = []"
| "delete_requested (Delete_objects keys deleted # evs) = keys @ delete_requested evs"
| "delete_requested (e # evs) = delete_requested evs"

fun fetch_sites :: "string \<Rightarrow> event list \<Rightarrow> fetch_site list" where
  "fetch_sites n [] = []"
| "fetch_sites n (Get site filename url # evs) =
     (if filename = n then site # fetch_sites n evs else fetch_sites n evs)"
| "fetch_sites n (e # evs) = fetch_sites n evs"

text \<open>
  An environment in which every request succeeds. The body served for a URL is a text
  that names the URL, so that no body is empty.
\<close>

definition all_ok :: env where
  "all_ok =
     \<lparr>fetch_ok = (\<lambda>url. True), upload_ok = (\<lambda>key. True), delete_fails = (\<lambda>key. False),
      body_of = (\<lambda>url. ''bytes of '' @ url)\<rparr>"

text \<open>Environments in which one URL cannot be fetched, or one key cannot be deleted.\<close>

definition failing_fetch :: "string \<Rightarrow> env" where
  "failing_fetch bad =
     \<lparr>fetch_ok = (\<lambda>url. url \<noteq> bad), upload_ok = (\<lambda>key. True), delete_fails = (\<lambda>key. False),
      body_of = (\<lambda>url. ''bytes of '' @ url)\<rparr>"

definition failing_delete :: "string \<Rightarrow> env" where
  "failing_delete bad =
     \<lparr>fetch_ok = (\<lambda>url. True), upload_ok = (\<lambda>key. True), delete_fails = (\<lambda>key. key = bad),
      body_of = (\<lambda>url. ''bytes of '' @ url)\<rparr>"



section \<open>Sequencing lemmas\<close>

lemma uploaded_keys_append: "uploaded_keys (xs @ ys) = uploaded_keys xs @ uploaded_keys ys"
  by (induction xs rule: uploaded_keys.induct) simp_all

lemma delete_requested_append:
  "delete_requested (xs @ ys) = delete_requested xs @ delete_requested ys"
  by (induction xs rule: delete_requested.induct) simp_all

lemma fetch_sites_append: "fetch_sites n (xs @ ys) = fetch_sites n xs @ fetch_sites n ys"
  by (induction n xs rule: fetch_sites.induct) simp_all

lemma and_then_raised: "raised o1 = Some e \<Longrightarrow> and_then o1 f = o1"
  by (simp add: and_then_def)

lemma and_then_events:
  "raised o1 = None \<Longrightarrow> events (and_then o1 f) = events o1 @ events (f (files o1))"
  by (simp add: and_then_def Let_def)

lemma and_then_files: "raised o1 = None \<Longrightarrow> files (and_then o1 f) = files (f (files o1))"
  by (simp add: and_then_def Let_def)

lemma and_then_raised_None:
  "raised o1 = None \<Longrightarrow> raised (and_then o1 f) = raised (f (files o1))"
  by (simp add: and_then_def Let_def)

lemma and_then_finish_left: "and_then (finish fs) f = f fs"
  by (simp add: and_then_def finish_def Let_def)

lemma and_then_emit_left: "and_then (emit evs fs) f = (f fs)\<lparr>events := evs @ events (f fs)\<rparr>"
  by (simp add: and_then_def emit_def Let_def)

lemma and_then_assoc:
  "and_then (and_then a f) g = and_then a (\<lambda>fs. and_then (f fs) g)"
  by (cases "raised a"; cases "raised (f (files a))") (simp_all add: and_then_def Let_def)

lemma upload_loop_append:
  "upload_loop env S pfx (xs @ ys) fs =
     and_then (upload_loop env S pfx xs fs) (upload_loop env S pfx ys)"
proof (induction xs arbitrary: fs)
  case Nil
  show ?case by (simp add: and_then_finish_left)
next
  case (Cons item xs)
  have "upload_loop env S pfx (xs @ ys) =
          (\<lambda>fs. and_then (upload_loop env S pfx xs fs) (upload_loop env S pfx ys))"
    by (rule ext) (rule Cons.IH)
  then show ?case by (simp add: and_then_assoc)
qed

lemma events_and_then_cases:
  "events (and_then a f) = events a \<or> events (and_then a f) = events a @ events (f (files a))"
  by (cases "raised a") (simp_all add: and_then_def Let_def)

lemmas item_defs = upload_item_def and_then_def requests_get_def s3_upload_fileobj_def
  emit_def finish_def raise_def write_file_def read_all_def Let_def



lemma upload_item_no_delete:
  "delete_requested (events (upload_item env S pfx fs item)) = []"
  by (cases item; cases "snd item") (simp_all add: item_defs)

lemma upload_item_fetch_sites:
  "fetch_sites n (events (upload_item env S pfx fs (m, loc))) =
     (if m = n then fetch_sites n (events (upload_item env S pfx fs (m, loc))) else [])"
  by (cases loc) (auto simp add: item_defs)

lemma upload_item_fetch_once:
  "length (fetch_sites n (events (upload_item env S pfx fs (n, loc)))) \<le> 1"
  by (cases loc) (auto simp add: item_defs)

lemma upload_item_fetch_site:
  "set (fetch_sites n (events (upload_item env S pfx fs (n, loc)))) \<subseteq>
     (if n \<in> set S then (if n \<in> set files_to_download then {For_cache} else {})
      else {For_upload})"
  by (cases loc) (auto simp add: item_defs)

section \<open>The store listing\<close>







lemmas name_defs = object_name_def split_py_def startswith_def endswith_def



text \<open>
  C4 (prefix stripping). The claim asks for the key with exactly its leading prefix
  removed, also when the prefix occurs again later in the key. The code takes element 1
  of \<open>key.split(s3_prefix)\<close>, which ends at the second occurrence: for the key
  \<open>dataset/backup/dataset/pr.txt\<close> under the prefix \<open>dataset/\<close> it returns
  \<open>backup/\<close>, not \<open>backup/dataset/pr.txt\<close>.
\<close>
theorem get_s3_objects_repeated_prefix:
  "get_s3_objects [Some [''dataset/backup/dataset/pr.txt'']] ''dataset/'' = Inr [''backup/'']"
  by (simp add: get_s3_objects_def name_defs)

text \<open>
  The default prefix of \<open>get_s3_objects\<close> is the empty string: every key starts
  with it, and splitting at an empty separator raises.
\<close>

lemma get_s3_objects_empty_prefix:
  "get_s3_objects [Some [''a.txt'']] '''' = Inl ValueError"
  by (simp add: get_s3_objects_def name_defs)

section \<open>The upload loop\<close>

lemma upload_files_to_s3_eq:
  "upload_files_to_s3 env R S pfx fs =
     (upload_loop env S pfx R fs)\<lparr>events := Makedirs download_dir # events (upload_loop env S pfx R fs)\<rparr>"
  by (simp add: upload_files_to_s3_def and_then_emit_left)



lemma upload_loop_no_delete:
  "delete_requested (events (upload_loop env S pfx R fs)) = []"
proof (induction R arbitrary: fs)
  case Nil
  show ?case by (simp add: finish_def)
next
  case (Cons item R)
  from events_and_then_cases [of "upload_item env S pfx fs item" "upload_loop env S pfx R"]
  show ?case
    by (auto simp add: delete_requested_append upload_item_no_delete Cons.IH)
qed

lemma upload_loop_fetch_absent:
  "n \<notin> fst ` set R \<Longrightarrow> fetch_sites n (events (upload_loop env S pfx R fs)) = []"
proof (induction R arbitrary: fs)
  case Nil
  show ?case by (simp add: finish_def)
next
  case (Cons item R)
  obtain m loc where item: "item = (m, loc)" by (cases item)
  with Cons.prems have "m \<noteq> n" by auto
  then have a: "fetch_sites n (events (upload_item env S pfx fs (m, loc))) = []"
    using upload_item_fetch_sites [of n env S pfx fs m loc] by simp
  from Cons.prems have "n \<notin> fst ` set R" by simp
  note ih = Cons.IH [OF this]
  from events_and_then_cases [of "upload_item env S pfx fs item" "upload_loop env S pfx R"] a ih item
  show ?case
    by (auto simp add: fetch_sites_append)
qed

lemma upload_loop_fetch_sites:
  assumes "distinct (map fst R)"
  shows "length (fetch_sites n (events (upload_loop env S pfx R fs))) \<le> 1 \<and>
         set (fetch_sites n (events (upload_loop env S pfx R fs))) \<subseteq>
           (if n \<in> set S then (if n \<in> set files_to_download then {For_cache} else {})
            else {For_upload})"
  using assms
proof (induction R arbitrary: fs)
  case Nil
  show ?case by (simp add: finish_def)
next
  case (Cons item R)
  obtain m loc where item: "item = (m, loc)" by (cases item)
  let ?o = "upload_item env S pfx fs (m, loc)"
  from Cons.prems have d: "distinct (map fst R)" by simp
  note ih = Cons.IH [OF d, of "files ?o"]
  note c = events_and_then_cases [of ?o "upload_loop env S pfx R"]
  show ?case
  proof (cases "m = n")
    case True
    with Cons.prems item have "n \<notin> fst ` set R" by auto
    then have "fetch_sites n (events (upload_loop env S pfx R (files ?o))) = []"
      by (rule upload_loop_fetch_absent)
    with c True item upload_item_fetch_once [of n env S pfx fs loc]
      upload_item_fetch_site [of n env S pfx fs loc]
    show ?thesis by (auto simp add: fetch_sites_append)
  next
    case False
    then have "fetch_sites n (events ?o) = []"
      using upload_item_fetch_sites [of n env S pfx fs m loc] by simp
    with c ih item show ?thesis by (auto simp add: fetch_sites_append)
  qed
qed

section \<open>The sync plan\<close>

lemma files_to_delete_set: "set (files_to_delete R S) = set S - fst ` set R"
  by (auto simp add: files_to_delete_def)

lemma remove_files_requested:
  "delete_requested (events (remove_files_from_s3 env R S pfx fs)) =
     map ((@) pfx) (files_to_delete R S)"
  by (simp add: remove_files_from_s3_def s3_delete_objects_def and_then_def emit_def Let_def)






section \<open>Publishing with nothing listed\<close>

text \<open>
  C10 (empty prefix at publication). When the response of the listing call has no
  \<open>Contents\<close>, which is how the store answers for a prefix without objects,
  \<open>generate_index_html\<close> prints one line and returns: it stores no index document
  and makes no put call.
\<close>
theorem generate_index_html_nothing_listed:
  assumes "list_objects_v2 pages = None"
  shows "generate_index_html env pages prefix fs =
           \<lparr>events = [Print No_files_found], files = fs, raised = None\<rparr>"
  using assms by (simp add: generate_index_html_def emit_def)

theorem generate_index_html_nothing_listed_witness:
  "generate_index_html all_ok [None] ''dataset/'' {} =
     \<lparr>events = [Print No_files_found], files = {}, raised = None\<rparr>"
proof -
  have "list_objects_v2 [None] = None" by simp
  from generate_index_html_nothing_listed [OF this] show ?thesis .
qed

section \<open>Failures\<close>

text \<open>
  C2 (partial-failure isolation), as amended. Nothing catches the exception of a failed
  fetch or upload, so it ends the loop. When the items before \<open>k\<close> were processed
  without error and the fetch or the upload of \<open>k\<close> (a name not in the store) fails,
  the run is the run over the items up to \<open>k\<close> alone, whatever follows \<open>k\<close>: the
  exception of \<open>k\<close> is raised, the uploads made before \<open>k\<close> stay, \<open>k\<close> is not
  uploaded and no later item is attempted.
\<close>
theorem upload_failure_aborts_rest:
  assumes "raised (upload_files_to_s3 env before S pfx fs) = None"
      and "k \<notin> set S"
      and "\<not> fetch_ok env url \<or> \<not> upload_ok env (pfx @ k)"
  shows "upload_files_to_s3 env (before @ (k, Some url) # rest) S pfx fs =
           upload_files_to_s3 env (before @ [(k, Some url)]) S pfx fs
       \<and> raised (upload_files_to_s3 env (before @ (k, Some url) # rest) S pfx fs) =
           Some (if \<not> fetch_ok env url then HTTPError url else S3UploadFailed (pfx @ k))
       \<and> uploaded_keys (events (upload_files_to_s3 env (before @ (k, Some url) # rest) S pfx fs)) =
           uploaded_keys (events (upload_files_to_s3 env before S pfx fs))"
proof -
  let ?b = "upload_loop env S pfx before fs"
  let ?i = "upload_item env S pfx (files ?b) (k, Some url)"
  let ?e = "if \<not> fetch_ok env url then HTTPError url else S3UploadFailed (pfx @ k)"
  from assms(1) have b: "raised ?b = None"
    by (simp add: upload_files_to_s3_eq)
  from assms(2,3) have i: "raised ?i = Some ?e" "uploaded_keys (events ?i) = []"
    by (auto simp add: item_defs)
  have loop: "upload_loop env S pfx (before @ (k, Some url) # tl) fs = and_then ?b (\<lambda>fs. ?i)" for tl
  proof -
    have "upload_loop env S pfx ((k, Some url) # tl) (files ?b) = ?i"
      using i(1) by (simp add: and_then_raised)
    with b show ?thesis
      by (simp add: upload_loop_append and_then_def Let_def del: upload_loop.simps)
  qed
  have same: "upload_loop env S pfx (before @ (k, Some url) # rest) fs =
               upload_loop env S pfx (before @ [(k, Some url)]) fs"
    by (simp only: loop)
  from b i have r: "raised (and_then ?b (\<lambda>fs. ?i)) = Some ?e"
    by (simp add: and_then_raised_None)
  from b i have u: "uploaded_keys (events (and_then ?b (\<lambda>fs. ?i))) = uploaded_keys (events ?b)"
    by (simp add: and_then_events uploaded_keys_append)
  from same r u show ?thesis
    by (simp add: upload_files_to_s3_eq loop)
qed

theorem upload_failure_aborts_rest_witness:
  "upload_files_to_s3 (failing_fetch ''u/b'')
      ([(''a.txt'', Some ''u/a'')] @ (''b.txt'', Some ''u/b'') # [(''c.txt'', Some ''u/c'')]) [] ''dataset/'' {} =
    upload_files_to_s3 (failing_fetch ''u/b'')
      ([(''a.txt'', Some ''u/a'')] @ [(''b.txt'', Some ''u/b'')]) [] ''dataset/'' {}
   \<and> raised (upload_files_to_s3 (failing_fetch ''u/b'')
      ([(''a.txt'', Some ''u/a'')] @ (''b.txt'', Some ''u/b'') # [(''c.txt'', Some ''u/c'')]) [] ''dataset/'' {})
      = Some (HTTPError ''u/b'')
   \<and> uploaded_keys (events (upload_files_to_s3 (failing_fetch ''u/b'')
      ([(''a.txt'', Some ''u/a'')] @ (''b.txt'', Some ''u/b'') # [(''c.txt'', Some ''u/c'')]) [] ''dataset/'' {}))
      = [''dataset/a.txt'']"
proof -
  let ?env = "failing_fetch ''u/b''"
  have h1: "raised (upload_files_to_s3 ?env [(''a.txt'', Some ''u/a'')] [] ''dataset/'' {}) = None"
    by (simp add: upload_files_to_s3_def item_defs failing_fetch_def files_to_download_def)
  have h2: "''b.txt'' \<notin> set []" by simp
  have h3: "\<not> fetch_ok ?env ''u/b'' \<or> \<not> upload_ok ?env (''dataset/'' @ ''b.txt'')"
    by (simp add: failing_fetch_def)
  have e: "\<not> fetch_ok ?env ''u/b''" by (simp add: failing_fetch_def)
  have u: "uploaded_keys (events (upload_files_to_s3 ?env [(''a.txt'', Some ''u/a'')] [] ''dataset/'' {}))
     = [''dataset/a.txt'']"
    by (simp add: upload_files_to_s3_def item_defs failing_fetch_def files_to_download_def)
  note t = upload_failure_aborts_rest [OF h1 h2 h3, of "[(''c.txt'', Some ''u/c'')]"]
  from t have c1: "upload_files_to_s3 ?env
      ([(''a.txt'', Some ''u/a'')] @ (''b.txt'', Some ''u/b'') # [(''c.txt'', Some ''u/c'')]) [] ''dataset/'' {} =
    upload_files_to_s3 ?env ([(''a.txt'', Some ''u/a'')] @ [(''b.txt'', Some ''u/b'')]) [] ''dataset/'' {}"
    by (rule conjunct1)
  from t [THEN conjunct2, THEN conjunct1] e have c2: "raised (upload_files_to_s3 ?env
      ([(''a.txt'', Some ''u/a'')] @ (''b.txt'', Some ''u/b'') # [(''c.txt'', Some ''u/c'')]) [] ''dataset/'' {})
      = Some (HTTPError ''u/b'')"
    by simp
  from t [THEN conjunct2, THEN conjunct2] u have c3: "uploaded_keys (events (upload_files_to_s3 ?env
      ([(''a.txt'', Some ''u/a'')] @ (''b.txt'', Some ''u/b'') # [(''c.txt'', Some ''u/c'')]) [] ''dataset/'' {}))
      = [''dataset/a.txt'']"
    by simp
  from c1 c2 c3 show ?thesis by (intro conjI)
qed

text \<open>
  The claim as stated fails: when the fetch of the first of two items fails, the run
  ends after that request and the second item is never requested.
\<close>

theorem upload_failure_aborts_rest_counterexample:
  "events (upload_files_to_s3 (failing_fetch ''u/a'')
      [(''a.txt'', Some ''u/a''), (''b.txt'', Some ''u/b'')] [] ''dataset/'' {})
     = [Makedirs ''data/dataset1'', Get For_upload ''a.txt'' ''u/a'']"
  by (simp add: upload_files_to_s3_def item_defs failing_fetch_def download_dir_def
      os_path_join_def DATA_DIR_def startswith_def endswith_def)

section \<open>The batch delete\<close>

lemma files_to_delete_distinct: "distinct (files_to_delete R S)"
  by (simp add: files_to_delete_def)

text \<open>
  C3 (count reported by the batch delete), as amended. The response of
  \<open>delete_objects\<close> is not read: the count printed at line 126 is the length of the
  request. For a non-empty \<open>to_delete\<close>, the delete path sends one batch delete for
  the prefixed names of \<open>S - keys(R)\<close>, each once, and reports their number as the
  number of files deleted, whichever of them the store failed to delete.
\<close>
theorem deleted_count_is_requested:
  assumes "set S - fst ` set R \<noteq> {}"
  shows "\<exists>keys. events (remove_files_from_s3 env R S pfx fs) =
           [Print Deleting_obsolete,
            Delete_objects keys (filter (\<lambda>key. \<not> delete_fails env key) keys),
            Print (Deleted (length keys))]
         \<and> set keys = (@) pfx ` (set S - fst ` set R)
         \<and> length keys = card (set S - fst ` set R)"
proof -
  let ?keys = "map ((@) pfx) (files_to_delete R S)"
  from assms have "set (files_to_delete R S) \<noteq> {}"
    by (simp add: files_to_delete_set)
  then have ne: "files_to_delete R S \<noteq> []" by auto
  then have ev: "events (remove_files_from_s3 env R S pfx fs) =
           [Print Deleting_obsolete,
            Delete_objects ?keys (filter (\<lambda>key. \<not> delete_fails env key) ?keys),
            Print (Deleted (length ?keys))]"
    by (simp add: remove_files_from_s3_def s3_delete_objects_def and_then_def emit_def Let_def)
  have s: "set ?keys = (@) pfx ` (set S - fst ` set R)"
    by (simp add: files_to_delete_set)
  have "length ?keys = card (set (files_to_delete R S))"
    using files_to_delete_distinct [of R S] by (simp add: distinct_card)
  then have l: "length ?keys = card (set S - fst ` set R)"
    by (simp add: files_to_delete_set)
  from ev s l show ?thesis by blast
qed

text \<open>
  The claim as stated fails: of two keys requested, the store deletes one, and the count
  reported is 2.
\<close>

theorem deleted_count_is_requested_counterexample:
  "events (remove_files_from_s3 (failing_delete ''dataset/d.txt'') []
      [''c.txt'', ''d.txt''] ''dataset/'' {}) =
     [Print Deleting_obsolete,
      Delete_objects [''dataset/c.txt'', ''dataset/d.txt''] [''dataset/c.txt''],
      Print (Deleted 2)]"
  by (simp add: remove_files_from_s3_def s3_delete_objects_def and_then_def emit_def Let_def
      files_to_delete_def failing_delete_def)

theorem deleted_count_is_requested_witness:
  "\<exists>keys. events (remove_files_from_s3 (failing_delete ''dataset/d.txt'') []
      [''c.txt'', ''d.txt''] ''dataset/'' {}) =
           [Print Deleting_obsolete,
            Delete_objects keys (filter (\<lambda>key. \<not> delete_fails (failing_delete ''dataset/d.txt'') key) keys),
            Print (Deleted (length keys))]
         \<and> length keys = 2"
proof -
  have h: "set [''c.txt'', ''d.txt''] - fst ` set ([] :: files_info) \<noteq> {}" by simp
  have c: "card (set [''c.txt'', ''d.txt''] - fst ` set ([] :: files_info)) = 2" by simp
  from deleted_count_is_requested [OF h, of "failing_delete ''dataset/d.txt''" "''dataset/''" "{}"]
  obtain keys where
    k: "events (remove_files_from_s3 (failing_delete ''dataset/d.txt'') []
          [''c.txt'', ''d.txt''] ''dataset/'' {}) =
           [Print Deleting_obsolete,
            Delete_objects keys (filter (\<lambda>key. \<not> delete_fails (failing_delete ''dataset/d.txt'') key) keys),
            Print (Deleted (length keys))]"
    and l: "length keys = card (set [''c.txt'', ''d.txt''] - fst ` set ([] :: files_info))"
    by blast
  from l c have "length keys = 2" by (simp only:)
  with k show ?thesis by blast
qed

section \<open>Protected entries\<close>

lemma no_delete_and_then:
  assumes "k \<notin> set (delete_requested (events a))"
      and "\<And>fs. k \<notin> set (delete_requested (events (f fs)))"
  shows "k \<notin> set (delete_requested (events (and_then a f)))"
  using events_and_then_cases [of a f] assms
  by (auto simp add: delete_requested_append)

lemma upload_files_no_delete:
  "delete_requested (events (upload_files_to_s3 env R S pfx fs)) = []"
  by (simp add: upload_files_to_s3_eq upload_loop_no_delete)

lemma get_dataset2_json_no_delete:
  "delete_requested (events (get_dataset2_json env fs)) = []"
  by (simp add: get_dataset2_json_def and_then_def requests_get_def emit_def dump_json_def Let_def)

lemma s3_upload_file_no_delete:
  "delete_requested (events (s3_upload_file env path key fs)) = []"
  by (simp add: s3_upload_file_def emit_def raise_def)

lemma generate_index_html_no_delete:
  "delete_requested (events (generate_index_html env pages prefix fs)) = []"
  by (simp add: generate_index_html_def s3_put_object_def and_then_def emit_def raise_def Let_def
      split: option.splits)

lemma dict_set_keys: "fst ` set (dict_set d k v) = insert k (fst ` set d)"
  by (induction d k v rule: dict_set.induct) auto

lemma remove_files_keeps_keys:
  assumes "n \<in> fst ` set R"
  shows "pfx @ n \<notin> set (delete_requested (events (remove_files_from_s3 env R S pfx fs)))"
  using assms by (auto simp add: remove_files_requested files_to_delete_set)

lemma sync_bucket_keeps:
  assumes "\<And>R0 :: files_info.
             n \<in> fst ` set (dict_set (dict_set R0 ''index.html'' None) DATASET2_JSON_FILE None)"
  shows "pfx @ n \<notin> set (delete_requested (events (sync_bucket env info pages0 pages1 pfx fs)))"
proof (cases info)
  case (Inl e)
  then show ?thesis by (simp add: sync_bucket_def raise_def)
next
  case (Inr R0)
  show ?thesis
  proof (cases "get_s3_objects pages0 pfx")
    case (Inl e)
    with Inr show ?thesis by (simp add: sync_bucket_def raise_def)
  next
    case s3: (Inr s3_files)
    let ?R = "dict_set (dict_set R0 ''index.html'' None) DATASET2_JSON_FILE None"
    let ?path = "os_path_join (os_path_join DATA_DIR ''dataset2'') DATASET2_JSON_FILE"
    from Inr s3 have eq: "sync_bucket env info pages0 pages1 pfx fs =
        and_then (upload_files_to_s3 env ?R s3_files pfx fs)
          (\<lambda>fs. and_then (remove_files_from_s3 env ?R s3_files pfx fs)
          (\<lambda>fs. and_then (emit [Print Uploading_dataset2] fs)
          (\<lambda>fs. and_then (get_dataset2_json env fs)
          (\<lambda>fs. and_then (s3_upload_file env ?path (pfx @ DATASET2_JSON_FILE) fs)
          (\<lambda>fs. and_then (emit [Print Dataset2_uploaded, Print Sync_complete] fs)
          (generate_index_html env pages1 pfx))))))"
      by (simp add: sync_bucket_def Let_def)
    show ?thesis
      unfolding eq
      by (intro no_delete_and_then remove_files_keeps_keys)
         (simp_all add: assms upload_files_no_delete get_dataset2_json_no_delete
            s3_upload_file_no_delete generate_index_html_no_delete emit_def)
  qed
qed

text \<open>
  C5 (protected entries). An entry of the remote mapping without a URL is a key of the
  mapping, so its name is never in \<open>files_to_delete\<close> and its key is never named in
  the batch delete, whatever the store lists. \<open>sync_bucket\<close> enters \<open>index.html\<close> and
  the name of the second dataset into the mapping without a URL before it calls the
  upload and delete paths, so no run of \<open>sync_bucket\<close> asks to delete either key.
\<close>
theorem protected_entries_never_deleted:
  assumes "(n, None) \<in> set R"
  shows "n \<notin> set (files_to_delete R S)
       \<and> pfx @ n \<notin> set (delete_requested (events (remove_files_from_s3 env R S pfx fs)))
       \<and> pfx @ ''index.html'' \<notin>
           set (delete_requested (events (sync_bucket env info pages0 pages1 pfx fs)))
       \<and> pfx @ DATASET2_JSON_FILE \<notin>
           set (delete_requested (events (sync_bucket env info pages0 pages1 pfx fs)))"
proof -
  from assms have k: "n \<in> fst ` set R" by force
  then have a: "n \<notin> set (files_to_delete R S)"
    by (simp add: files_to_delete_set)
  from k have b: "pfx @ n \<notin> set (delete_requested (events (remove_files_from_s3 env R S pfx fs)))"
    by (rule remove_files_keeps_keys)
  have c: "pfx @ ''index.html'' \<notin>
           set (delete_requested (events (sync_bucket env info pages0 pages1 pfx fs)))"
    by (rule sync_bucket_keeps) (simp add: dict_set_keys)
  have d: "pfx @ DATASET2_JSON_FILE \<notin>
           set (delete_requested (events (sync_bucket env info pages0 pages1 pfx fs)))"
    by (rule sync_bucket_keeps) (simp add: dict_set_keys)
  from a b c d show ?thesis by simp
qed

theorem protected_entries_never_deleted_witness:
  "''index.html'' \<notin> set (files_to_delete
       [(''a.txt'', Some ''u/a''), (''index.html'', None)] [''index.html'', ''old.txt''])
   \<and> ''dataset/'' @ ''index.html'' \<notin> set (delete_requested (events (remove_files_from_s3 all_ok
       [(''a.txt'', Some ''u/a''), (''index.html'', None)] [''index.html'', ''old.txt''] ''dataset/'' {})))
   \<and> ''dataset/'' @ ''index.html'' \<notin> set (delete_requested (events (sync_bucket all_ok
       (Inr [(''a.txt'', Some ''u/a'')])
       [Some [''dataset/index.html'', ''dataset/usa_population.json'', ''dataset/old.txt'']]
       [Some [''dataset/a.txt'', ''dataset/index.html'', ''dataset/usa_population.json'']]
       ''dataset/'' {})))
   \<and> ''dataset/'' @ DATASET2_JSON_FILE \<notin> set (delete_requested (events (sync_bucket all_ok
       (Inr [(''a.txt'', Some ''u/a'')])
       [Some [''dataset/index.html'', ''dataset/usa_population.json'', ''dataset/old.txt'']]
       [Some [''dataset/a.txt'', ''dataset/index.html'', ''dataset/usa_population.json'']]
       ''dataset/'' {})))"
proof -
  have "(''index.html'', None) \<in> set [(''a.txt'', Some ''u/a''), (''index.html'', None)]"
    by simp
  from protected_entries_never_deleted [OF this] show ?thesis .
qed

text \<open>A run of \<open>sync_bucket\<close> that does delete: the obsolete key goes, the protected keys stay.\<close>

lemma sync_bucket_deletes_example:
  "delete_requested (events (sync_bucket all_ok
       (Inr [(''a.txt'', Some ''u/a'')])
       [Some [''dataset/index.html'', ''dataset/usa_population.json'', ''dataset/old.txt'']]
       [Some [''dataset/a.txt'', ''dataset/index.html'', ''dataset/usa_population.json'']]
       ''dataset/'' {})) = [''dataset/old.txt'']"
  by (simp add: sync_bucket_def get_s3_objects_def name_defs upload_files_no_delete
      get_dataset2_json_no_delete s3_upload_file_no_delete generate_index_html_no_delete
      remove_files_requested files_to_delete_def DATASET2_JSON_FILE_def
      and_then_def emit_def Let_def delete_requested_append all_ok_def
      upload_files_to_s3_def item_defs s3_upload_file_def get_dataset2_json_def
      remove_files_from_s3_def s3_delete_objects_def generate_index_html_def s3_put_object_def
      dump_json_def)

section \<open>Fetches\<close>

lemma upload_files_fetch_sites:
  "fetch_sites n (events (upload_files_to_s3 env R S pfx fs)) =
     fetch_sites n (events (upload_loop env S pfx R fs))"
  by (simp add: upload_files_to_s3_eq)

text \<open>
  The remote mapping is a dict, so its names are distinct. In a run of the upload path,
  at most one request is sent for any name. For a name that is not in the store, the
  request (if any) is the one of line 99; for a name already in the store, the request
  (if any) is the dedicated one of line 110, and it is sent only for a name on the
  allow-list of local copies.
\<close>

lemma upload_fetch_sites_bound:
  assumes "distinct (map fst R)"
  shows "length (fetch_sites n (events (upload_files_to_s3 env R S pfx fs))) \<le> 1
       \<and> set (fetch_sites n (events (upload_files_to_s3 env R S pfx fs))) \<subseteq>
           (if n \<in> set S then (if n \<in> set files_to_download then {For_cache} else {})
            else {For_upload})"
  using upload_loop_fetch_sites [OF assms, of n env S pfx fs]
  by (simp only: upload_files_fetch_sites)

lemmas path_defs = download_dir_def os_path_join_def DATA_DIR_def startswith_def endswith_def
  files_to_download_def

text \<open>
  What the local copy holds. For a name on the allow-list that is not in the store and
  has no local copy yet, one request is sent, its body is uploaded, and the local file is
  written from the same response: \<open>upload_fileobj\<close> has read the stream to its end, so
  the file is written with no bytes, whatever the body was.
\<close>

lemma upload_item_shared_copy_empty:
  assumes "filename \<notin> set S" and "filename \<in> set files_to_download"
      and "os_path_join download_dir filename \<notin> fs"
      and "fetch_ok env url" and "upload_ok env (pfx @ filename)"
  shows "events (upload_item env S pfx fs (filename, Some url)) =
           [Get For_upload filename url,
            Print (Uploading filename),
            Upload_fileobj (body_of env url) (pfx @ filename),
            Print (Downloading filename),
            Write_file (os_path_join download_dir filename) []]"
  using assms by (simp add: item_defs)

text \<open>
  For a name on the allow-list that is already in the store, the dedicated request of
  line 110 is sent and the local file holds the whole body.
\<close>

lemma upload_item_dedicated_copy_full:
  assumes "filename \<in> set S" and "filename \<in> set files_to_download"
      and "os_path_join download_dir filename \<notin> fs"
      and "fetch_ok env url"
  shows "events (upload_item env S pfx fs (filename, Some url)) =
           [Print (Skipping filename),
            Print (Downloading filename),
            Get For_cache filename url,
            Write_file (os_path_join download_dir filename) (body_of env url)]"
  using assms by (simp add: item_defs)

text \<open>
  C9 (one fetch per name, shared with the local copy). The claim says that a name that
  is both uploaded and on the allow-list has its local copy materialized from the single
  shared fetch. On the first run for \<open>pr.data.0.Current\<close> (not in the store, no local
  copy), the code sends one request and uploads its body, but the local file it then
  writes from the same response is empty: the body \<open>bytes of u/pr\<close> reaches the store
  and no byte of it reaches the file.
\<close>

theorem upload_shared_fetch_writes_nothing:
  "events (upload_files_to_s3 all_ok [(''pr.data.0.Current'', Some ''u/pr'')] [] ''dataset/'' {}) =
     [Makedirs ''data/dataset1'',
      Get For_upload ''pr.data.0.Current'' ''u/pr'',
      Print (Uploading ''pr.data.0.Current''),
      Upload_fileobj ''bytes of u/pr'' ''dataset/pr.data.0.Current'',
      Print (Downloading ''pr.data.0.Current''),
      Write_file ''data/dataset1/pr.data.0.Current'' []]"
  by (simp add: upload_files_to_s3_def item_defs all_ok_def path_defs)

text \<open>
  With the name already in the store and no local copy, the dedicated request fills the
  file. Once the file exists, empty or not, line 107 skips the copy on every later run.
\<close>

lemma upload_dedicated_fetch_example:
  "events (upload_files_to_s3 all_ok [(''pr.data.0.Current'', Some ''u/pr'')]
      [''pr.data.0.Current''] ''dataset/'' {}) =
     [Makedirs ''data/dataset1'',
      Print (Skipping ''pr.data.0.Current''),
      Print (Downloading ''pr.data.0.Current''),
      Get For_cache ''pr.data.0.Current'' ''u/pr'',
      Write_file ''data/dataset1/pr.data.0.Current'' ''bytes of u/pr'']"
  by (simp add: upload_files_to_s3_def item_defs all_ok_def path_defs)

lemma upload_cached_no_fetch_example:
  "events (upload_files_to_s3 all_ok [(''pr.data.0.Current'', Some ''u/pr'')]
      [''pr.data.0.Current''] ''dataset/'' {''data/dataset1/pr.data.0.Current''}) =
     [Makedirs ''data/dataset1'', Print (Skipping ''pr.data.0.Current'')]"
  by (simp add: upload_files_to_s3_def item_defs all_ok_def path_defs)

section \<open>The published index\<close>

lemma index_loop_entries:
  "index_loop contents html_lines =
     html_lines @ map index_entry (filter (\<lambda>key. \<not> endswith key ''/'') contents)"
  by (induction contents arbitrary: html_lines) simp_all

lemma generate_index_html_first_response:
  "generate_index_html env (response # further) prefix fs =
     generate_index_html env [response] prefix fs"
  by (simp add: generate_index_html_def)

text \<open>
  C8 (the published index). The claim asks for one entry per object under the prefix,
  from a full enumeration. \<open>generate_index_html\<close> calls \<open>list_objects_v2\<close> once,
  without the paginator that \<open>get_s3_objects\<close> uses, so it sees the first response
  only: for a listing of two responses, the object of the second response has no entry
  in the index.
\<close>
theorem generate_index_html_first_page_only:
  "events (generate_index_html all_ok
      [Some [''dataset/a.txt''], Some [''dataset/b.txt'']] ''dataset/'' {}) =
     [Put_object ''dataset/index.html''
        (join [CHR 0x0A]
           (index_header ''dataset/'' @ [index_entry ''dataset/a.txt'', ''</ul></body></html>''])),
      Print (Index_uploaded ''dataset/index.html''),
      Print (Access_via ''dataset/index.html'')]"
  by (simp add: generate_index_html_def index_loop_entries s3_put_object_def and_then_def
      emit_def all_ok_def endswith_def Let_def)

text \<open>An entry: the anchor text is the base name, the link is the public URL of the key.\<close>

lemma index_entry_example:
  "index_entry ''dataset/sub/a.txt'' =
     ''<li><a href='' @ [CHR 0x22] @
     ''https://rearc-quest-data-bhagath.s3.ap-south-1.amazonaws.com/dataset/sub/a.txt'' @
     [CHR 0x22] @ ''>a.txt</a></li>''"
  by (simp add: index_entry_def public_url_def basename_def S3_BUCKET_NAME_def AWS_REGION_def
      startswith_def)

section \<open>Stripping a prefix that does not recur\<close>

lemma split_sep_leading_sep:
  assumes "sep \<noteq> []"
  shows "split_sep sep (sep @ rest) = [] # split_sep sep rest"
proof (cases sep)
  case Nil
  with assms show ?thesis by simp
next
  case (Cons c cs)
  then show ?thesis by (simp add: startswith_def)
qed

lemma split_sep_no_occurrence:
  assumes "\<And>a b. s \<noteq> a @ sep @ b"
  shows "split_sep sep s = [s]"
  using assms
proof (induction s)
  case Nil
  show ?case by simp
next
  case (Cons c cs)
  have "\<not> startswith (c # cs) sep"
  proof
    assume "startswith (c # cs) sep"
    then have "c # cs = [] @ sep @ drop (length sep) (c # cs)"
      by (metis append_Nil append_take_drop_id startswith_def)
    with Cons.prems show False by blast
  qed
  moreover have "split_sep sep cs = [cs]"
  proof (rule Cons.IH)
    fix a b
    show "cs \<noteq> a @ sep @ b"
    proof
      assume "cs = a @ sep @ b"
      then have "c # cs = (c # a) @ sep @ b" by simp
      with Cons.prems show False by blast
    qed
  qed
  ultimately show ?case by simp
qed

text \<open>
  Where the prefix does not occur again in the rest of the key, lines 78-79 do remove
  exactly the leading prefix.
\<close>

lemma object_name_strips:
  assumes "s3_prefix \<noteq> []" and "\<And>a b. rest \<noteq> a @ s3_prefix @ b"
  shows "object_name s3_prefix (s3_prefix @ rest) = Inr rest"
  using assms
  by (simp add: object_name_def split_py_def startswith_def split_sep_leading_sep
      split_sep_no_occurrence)

end
